theory Spec2Isabelle
  imports Complex_Main
begin

section \<open>Data model\<close>

text \<open>
  Tag values as the JavaScript code can see them. The code tests a value against
  \<^verbatim>\<open>null\<close>, \<^verbatim>\<open>undefined\<close> and the empty string, and uses it as a condition
  (truthiness), so these three shapes are kept apart.
\<close>

datatype jsval = JUndefined | JNull | JStr string

text \<open>
  A tag object is the list of its entries, in the order \<^verbatim>\<open>Object.entries\<close> yields them;
  the keys are ordinary property names. Reading a property that is not there gives
  \<^verbatim>\<open>undefined\<close>.
\<close>

type_synonym tags = "(string \<times> jsval) list"

definition getProp :: "tags \<Rightarrow> string \<Rightarrow> jsval" where
  "getProp t k = (case map_of t k of None \<Rightarrow> JUndefined | Some v \<Rightarrow> v)"

fun truthy :: "jsval \<Rightarrow> bool" where
  "truthy JUndefined = False"
| "truthy JNull = False"
| "truthy (JStr s) = (s \<noteq> [])"

text \<open>A position is the pair \<^verbatim>\<open>[lon, lat]\<close>.\<close>

type_synonym position = "real \<times> real"

section \<open>utils.js\<close>

text \<open>\<^verbatim>\<open>isValidCoordinate(lat, lon)\<close>\<close>

definition isValidCoordinate :: "real \<Rightarrow> real \<Rightarrow> bool" where
  "isValidCoordinate lat lon = (lat \<ge> -90 \<and> lat \<le> 90 \<and> lon \<ge> -180 \<and> lon \<le> 180)"

section \<open>geometryProcessor.js: classification and cleaning\<close>

definition polygonTags :: "string list" where
  "polygonTags =
     [''building'', ''landuse'', ''amenity'', ''leisure'', ''tourism'',
      ''aeroway'', ''natural'', ''place'', ''shop'', ''office'',
      ''craft'', ''military'', ''public_transport'']"

text \<open>The loop \<^verbatim>\<open>for (const tag of polygonTags) if (tags[tag]) return true\<close>.\<close>

fun anyPolygonTag :: "tags \<Rightarrow> string list \<Rightarrow> bool" where
  "anyPolygonTag t [] = False"
| "anyPolygonTag t (tag # rest) = (if truthy (getProp t tag) then True else anyPolygonTag t rest)"

text \<open>\<^verbatim>\<open>isAreaFeature(tags, isClosed, nodeCount)\<close>; \<open>None\<close> is a way without tags.\<close>

definition isAreaFeature :: "tags option \<Rightarrow> bool \<Rightarrow> nat \<Rightarrow> bool" where
  "isAreaFeature tags isClosed nodeCount =
     (if \<not> isClosed \<or> nodeCount < 4 then False
      else case tags of
        None \<Rightarrow> False
      | Some t \<Rightarrow>
          if getProp t ''area'' = JStr ''yes'' then True
          else if getProp t ''area'' = JStr ''no'' then False
          else if anyPolygonTag t polygonTags then True
          else if getProp t ''natural'' = JStr ''water'' \<or> getProp t ''natural'' = JStr ''wood''
                  \<or> getProp t ''natural'' = JStr ''scrub'' \<or> getProp t ''natural'' = JStr ''wetland''
               then True
          else if getProp t ''waterway'' = JStr ''riverbank'' \<or> getProp t ''waterway'' = JStr ''dock''
               then True
          else False)"

definition skipFields :: "string list" where
  "skipFields = [''created_by'', ''source'', ''source:ref'', ''attribution'']"

text \<open>
  Property assignment \<^verbatim>\<open>obj[key] = value\<close> on an object held as its entry list: an
  existing property keeps its place and takes the new value, a new property goes to
  the end. (For the key \<^verbatim>\<open>__proto__\<close> the assignment of a string creates no property in
  JavaScript; the entry list keeps it.)
\<close>

fun assign :: "('k \<times> 'v) list \<Rightarrow> 'k \<Rightarrow> 'v \<Rightarrow> ('k \<times> 'v) list" where
  "assign [] k v = [(k, v)]"
| "assign ((k', v') # rest) k v = (if k' = k then (k, v) # rest else (k', v') # assign rest k v)"

text \<open>The loop of \<^verbatim>\<open>cleanProperties\<close> over the entries, with \<^verbatim>\<open>cleaned\<close> as accumulator.\<close>

fun cleanLoop :: "tags \<Rightarrow> tags \<Rightarrow> tags" where
  "cleanLoop [] cleaned = cleaned"
| "cleanLoop ((key, v) # entries) cleaned =
     (if v = JNull \<or> v = JUndefined \<or> v = JStr [] then cleanLoop entries cleaned
      else if key \<in> set skipFields then cleanLoop entries cleaned
      else cleanLoop entries (assign cleaned key v))"

definition cleanProperties :: "tags option \<Rightarrow> tags" where
  "cleanProperties tags = (case tags of None \<Rightarrow> [] | Some t \<Rightarrow> cleanLoop t [])"

section \<open>Features and collections\<close>

text \<open>
  The GeoJSON geometry union; the constructor fixes both the \<^verbatim>\<open>type\<close> string and the
  shape of \<^verbatim>\<open>coordinates\<close>. A feature is a geometry with its properties, a collection
  an ordered list of features with the fixed reference system name.
\<close>

datatype geometry =
    Point position
  | LineString "position list"
  | Polygon "position list list"
  | MultiLineString "position list list"
  | MultiPoint "position list"
  | MultiPolygon "position list list list"
  | GeometryCollection

fun geometry_type :: "geometry \<Rightarrow> string" where
  "geometry_type (Point _) = ''Point''"
| "geometry_type (LineString _) = ''LineString''"
| "geometry_type (Polygon _) = ''Polygon''"
| "geometry_type (MultiLineString _) = ''MultiLineString''"
| "geometry_type (MultiPoint _) = ''MultiPoint''"
| "geometry_type (MultiPolygon _) = ''MultiPolygon''"
| "geometry_type GeometryCollection = ''GeometryCollection''"

text \<open>\<^verbatim>\<open>geometry.coordinates.length\<close>; a geometry collection has no coordinates.\<close>

fun coordinatesLength :: "geometry \<Rightarrow> nat option" where
  "coordinatesLength (Point _) = Some 2"
| "coordinatesLength (LineString cs) = Some (length cs)"
| "coordinatesLength (Polygon rs) = Some (length rs)"
| "coordinatesLength (MultiLineString ls) = Some (length ls)"
| "coordinatesLength (MultiPoint ps) = Some (length ps)"
| "coordinatesLength (MultiPolygon ps) = Some (length ps)"
| "coordinatesLength GeometryCollection = None"

record feature =
  geometry :: geometry
  properties :: tags

record featureCollection =
  features :: "feature list"
  crs :: string

section \<open>geometryProcessor.js: the clip boundary\<close>

text \<open>
  The Leaflet bounds object handed to \<^verbatim>\<open>setClipBoundary\<close>, by its four getters, and the
  stored state: the coordinates of the boundary polygon, or \<open>None\<close> for \<^verbatim>\<open>null\<close>.
  The state is threaded through the functions that read \<^verbatim>\<open>this.clipBoundary\<close>.
\<close>

record latLngBounds =
  getWest :: real
  getSouth :: real
  getEast :: real
  getNorth :: real

type_synonym clipBoundary = "position list list option"

definition setClipBoundary :: "latLngBounds option \<Rightarrow> clipBoundary" where
  "setClipBoundary bounds =
     (case bounds of
        None \<Rightarrow> None
      | Some b \<Rightarrow>
          Some [[(getWest b, getNorth b),
                 (getEast b, getNorth b),
                 (getEast b, getSouth b),
                 (getWest b, getSouth b),
                 (getWest b, getNorth b)]])"

text \<open>
  The four reads \<^verbatim>\<open>bounds[3][0]\<close>, \<^verbatim>\<open>bounds[1][0]\<close>, \<^verbatim>\<open>bounds[2][1]\<close>, \<^verbatim>\<open>bounds[0][1]\<close> of
  the ring \<^verbatim>\<open>clipBoundary.coordinates[0]\<close>. The ring written by \<open>setClipBoundary\<close>
  always has five corners, so the reads are in range.
\<close>

definition minLonOf :: "position list list \<Rightarrow> real" where
  "minLonOf c = fst ((c ! 0) ! 3)"

definition maxLonOf :: "position list list \<Rightarrow> real" where
  "maxLonOf c = fst ((c ! 0) ! 1)"

definition minLatOf :: "position list list \<Rightarrow> real" where
  "minLatOf c = snd ((c ! 0) ! 2)"

definition maxLatOf :: "position list list \<Rightarrow> real" where
  "maxLatOf c = snd ((c ! 0) ! 0)"

definition isPointInBoundary :: "clipBoundary \<Rightarrow> real \<Rightarrow> real \<Rightarrow> bool" where
  "isPointInBoundary cb lon lat =
     (case cb of
        None \<Rightarrow> True
      | Some c \<Rightarrow>
          lon \<ge> minLonOf c \<and> lon \<le> maxLonOf c \<and> lat \<ge> minLatOf c \<and> lat \<le> maxLatOf c)"

definition clipPointToBoundary ::
  "real \<Rightarrow> real \<Rightarrow> real \<Rightarrow> real \<Rightarrow> real \<Rightarrow> real \<Rightarrow> position" where
  "clipPointToBoundary lon lat minLon maxLon minLat maxLat =
     (max minLon (min maxLon lon), max minLat (min maxLat lat))"

text \<open>
  The \<^verbatim>\<open>for\<close> loop of \<^verbatim>\<open>clipLineString\<close>, with the index \<open>i\<close> and the array
  \<^verbatim>\<open>clipped\<close> as loop state. The test \<^verbatim>\<open>i < coords.length - 1\<close> is on integers, and
  when it holds \<^verbatim>\<open>coords[i + 1]\<close> is an element, so \<^verbatim>\<open>if (next)\<close> is true.
\<close>

function clipLineStringLoop ::
  "real \<Rightarrow> real \<Rightarrow> real \<Rightarrow> real \<Rightarrow> position list \<Rightarrow> nat \<Rightarrow> position list \<Rightarrow> position list" where
  "clipLineStringLoop minLon maxLon minLat maxLat coords i clipped =
     (if i < length coords then
        (case coords ! i of (lon, lat) \<Rightarrow>
           if lon \<ge> minLon \<and> lon \<le> maxLon \<and> lat \<ge> minLat \<and> lat \<le> maxLat then
             clipLineStringLoop minLon maxLon minLat maxLat coords (i + 1) (clipped @ [(lon, lat)])
           else if length clipped > 0 \<and> int i < int (length coords) - 1 then
             (case coords ! (i + 1) of (nextLon, nextLat) \<Rightarrow>
                if nextLon \<ge> minLon \<and> nextLon \<le> maxLon \<and> nextLat \<ge> minLat \<and> nextLat \<le> maxLat then
                  clipLineStringLoop minLon maxLon minLat maxLat coords (i + 1)
                    (clipped @ [clipPointToBoundary lon lat minLon maxLon minLat maxLat])
                else clipLineStringLoop minLon maxLon minLat maxLat coords (i + 1) clipped)
           else clipLineStringLoop minLon maxLon minLat maxLat coords (i + 1) clipped)
      else clipped)"
  by pat_completeness auto
termination
  by (relation "measure (\<lambda>(minLon, maxLon, minLat, maxLat, coords, i, clipped). length coords - i)") auto

declare clipLineStringLoop.simps [simp del]

definition clipLineString :: "clipBoundary \<Rightarrow> position list \<Rightarrow> position list" where
  "clipLineString cb coords =
     (case cb of
        None \<Rightarrow> coords
      | Some c \<Rightarrow> clipLineStringLoop (minLonOf c) (maxLonOf c) (minLatOf c) (maxLatOf c) coords 0 [])"

text \<open>The callback of \<^verbatim>\<open>rings.map\<close> in \<^verbatim>\<open>clipPolygon\<close>.\<close>

definition clipRing :: "real \<Rightarrow> real \<Rightarrow> real \<Rightarrow> real \<Rightarrow> position list \<Rightarrow> position list" where
  "clipRing minLon maxLon minLat maxLat ring =
     (let clipped = filter (\<lambda>(lon, lat). lon \<ge> minLon \<and> lon \<le> maxLon \<and> lat \<ge> minLat \<and> lat \<le> maxLat) ring
      in if length clipped \<ge> 3 then
           (if fst (clipped ! 0) \<noteq> fst (clipped ! (length clipped - 1))
               \<or> snd (clipped ! 0) \<noteq> snd (clipped ! (length clipped - 1))
            then clipped @ [clipped ! 0] else clipped)
         else clipped)"

definition clipPolygon :: "clipBoundary \<Rightarrow> position list list \<Rightarrow> position list list" where
  "clipPolygon cb rings =
     (case cb of
        None \<Rightarrow> rings
      | Some c \<Rightarrow>
          filter (\<lambda>ring. length ring \<ge> 4)
            (map (clipRing (minLonOf c) (maxLonOf c) (minLatOf c) (maxLatOf c)) rings))"

text \<open>
  \<^verbatim>\<open>clipFeatureToBoundary\<close>; \<open>None\<close> is the result \<^verbatim>\<open>null\<close>. The feature always
  has a geometry, and on these types no step of the \<^verbatim>\<open>try\<close> block throws.
\<close>

definition clipFeatureToBoundary :: "clipBoundary \<Rightarrow> feature \<Rightarrow> feature option" where
  "clipFeatureToBoundary cb f =
     (if cb = None then Some f
      else case geometry f of
        Point (lon, lat) \<Rightarrow> if \<not> isPointInBoundary cb lon lat then None else Some f
      | LineString coords \<Rightarrow>
          (let c = clipLineString cb coords
           in if length c < 2 then None else Some (f\<lparr>geometry := LineString c\<rparr>))
      | Polygon rings \<Rightarrow>
          (let r = clipPolygon cb rings
           in if length r = 0 \<or> length (r ! 0) < 4 then None
              else Some (f\<lparr>geometry := Polygon r\<rparr>))
      | MultiLineString ls \<Rightarrow>
          (let c = filter (\<lambda>line. length line \<ge> 2) (map (clipLineString cb) ls)
           in if length c = 0 then None else Some (f\<lparr>geometry := MultiLineString c\<rparr>))
      | _ \<Rightarrow> Some f)"

section \<open>geometryProcessor.js: the converter\<close>

text \<open>
  A raw element of the query response. \<open>el_type\<close> is the \<^verbatim>\<open>type\<close> string; a node
  carries numbers \<open>el_lat\<close> and \<open>el_lon\<close> (the fields are read for nodes only);
  \<open>el_tags\<close>, \<open>el_nodes\<close> and \<open>el_members\<close> may be absent.
\<close>

record member =
  m_type :: string
  m_ref :: int
  m_role :: string

record element =
  el_type :: string
  el_id :: int
  el_lat :: real
  el_lon :: real
  el_tags :: "tags option"
  el_nodes :: "int list option"
  el_members :: "member list option"

record osmData =
  elements :: "element list option"

text \<open>One call of the progress callback, by its argument.\<close>

record progressEvent =
  stage :: string
  message :: string
  progress :: int

definition emptyGeoJSON :: featureCollection where
  "emptyGeoJSON = \<lparr>features = [], crs = ''EPSG:4326''\<rparr>"

text \<open>
  The first \<^verbatim>\<open>forEach\<close>: the node lookup \<^verbatim>\<open>nodes\<close> (an object keyed by id, held
  as its entry list) and the arrays \<^verbatim>\<open>ways\<close> and \<^verbatim>\<open>relations\<close>.
\<close>

fun partitionElements ::
  "element list \<Rightarrow> (int \<times> element) list \<times> element list \<times> element list
     \<Rightarrow> (int \<times> element) list \<times> element list \<times> element list" where
  "partitionElements [] acc = acc"
| "partitionElements (el # rest) (nodes, ways, relations) =
     (if el_type el = ''node'' then partitionElements rest (assign nodes (el_id el) el, ways, relations)
      else if el_type el = ''way'' then partitionElements rest (nodes, ways @ [el], relations)
      else if el_type el = ''relation'' then partitionElements rest (nodes, ways, relations @ [el])
      else partitionElements rest (nodes, ways, relations))"

text \<open>
  The node pass. The conditions \<^verbatim>\<open>el.lat\<close> and \<^verbatim>\<open>el.lon\<close> are truthiness tests on
  numbers, false at \<open>0\<close>; \<^verbatim>\<open>el.tags\<close> is true for any object present. The state is
  the feature array, the counter \<^verbatim>\<open>processed\<close> and the calls made to the callback;
  \<open>onProgress\<close> tells whether a callback was supplied. The percentage of an
  intermediate event is computed on exact numbers, where the code rounds in double
  precision before \<^verbatim>\<open>Math.floor\<close>: the two can differ by one (2900 of 5000 elements
  gives 29 here and 28 in the code). No statement below reads an intermediate
  percentage.
\<close>

fun processNodes ::
  "clipBoundary \<Rightarrow> bool \<Rightarrow> nat \<Rightarrow> element list
     \<Rightarrow> feature list \<times> nat \<times> progressEvent list \<Rightarrow> feature list \<times> nat \<times> progressEvent list" where
  "processNodes cb onProgress totalElements [] st = st"
| "processNodes cb onProgress totalElements (el # rest) (fs, processed, events) =
     (let fs' =
            (if el_type el = ''node'' \<and> el_lat el \<noteq> 0 \<and> el_lon el \<noteq> 0
                \<and> (case el_tags el of None \<Rightarrow> False | Some t \<Rightarrow> length t > 0) then
               (let point = \<lparr>geometry = Point (el_lon el, el_lat el),
                             properties = cleanProperties (el_tags el)\<rparr>
                in if isPointInBoundary cb (el_lon el) (el_lat el) then fs @ [point] else fs)
             else fs);
          processed' = processed + 1;
          events' =
            (if onProgress \<and> processed' mod 100 = 0 then
               events @ [\<lparr>stage = ''process'', message = ''Processing geometries...'',
                          progress = \<lfloor>(real processed' / real totalElements) * 50\<rfloor>\<rparr>]
             else events)
      in processNodes cb onProgress totalElements rest (fs', processed', events'))"

text \<open>\<^verbatim>\<open>way.nodes.map(id => nodes[id] ? [lon, lat] : null).filter(c => c !== null)\<close>\<close>

definition resolveCoords :: "(int \<times> element) list \<Rightarrow> int list \<Rightarrow> position list" where
  "resolveCoords nodes ids =
     List.map_filter
       (\<lambda>i. case map_of nodes i of None \<Rightarrow> None | Some n \<Rightarrow> Some (el_lon n, el_lat n)) ids"

text \<open>
  The test \<^verbatim>\<open>feature && feature.geometry && feature.geometry.coordinates.length > 0\<close>
  on the result of the clip.
\<close>

definition keepClipped :: "feature option \<Rightarrow> bool" where
  "keepClipped r =
     (case r of
        None \<Rightarrow> False
      | Some f \<Rightarrow> (case coordinatesLength (geometry f) of None \<Rightarrow> False | Some n \<Rightarrow> n > 0))"

text \<open>
  The way pass. A \<^verbatim>\<open>return\<close> inside the callback leaves the state as it is, the
  counter included.
\<close>

fun processWays ::
  "clipBoundary \<Rightarrow> bool \<Rightarrow> (int \<times> element) list \<Rightarrow> nat \<Rightarrow> element list
     \<Rightarrow> feature list \<times> nat \<times> progressEvent list \<Rightarrow> feature list \<times> nat \<times> progressEvent list" where
  "processWays cb onProgress nodes waysLength [] st = st"
| "processWays cb onProgress nodes waysLength (way # rest) (fs, processed, events) =
     (case el_nodes way of
        None \<Rightarrow> processWays cb onProgress nodes waysLength rest (fs, processed, events)
      | Some ns \<Rightarrow>
          if length ns = 0 then processWays cb onProgress nodes waysLength rest (fs, processed, events)
          else
            (let coords = resolveCoords nodes ns
             in if length coords = 0 then
                  processWays cb onProgress nodes waysLength rest (fs, processed, events)
                else
                  (let isClosed = (ns ! 0 = ns ! (length ns - 1));
                       isArea = isAreaFeature (el_tags way) isClosed (length coords);
                       feat = \<lparr>geometry = (if isArea then Polygon [coords] else LineString coords),
                               properties = cleanProperties (el_tags way)\<rparr>;
                       clippedFeature = clipFeatureToBoundary cb feat;
                       fs' = (case clippedFeature of
                                None \<Rightarrow> fs
                              | Some f \<Rightarrow> if keepClipped clippedFeature then fs @ [f] else fs);
                       processed' = processed + 1;
                       events' =
                         (if onProgress \<and> processed' mod 50 = 0 then
                            events @ [\<lparr>stage = ''process'', message = ''Processing ways...'',
                                       progress = 50 + \<lfloor>(real_of_int (int processed' - int (length nodes))
                                                            / real waysLength) * 40\<rfloor>\<rparr>]
                          else events)
                   in processWays cb onProgress nodes waysLength rest (fs', processed', events'))))"

text \<open>The inner \<^verbatim>\<open>relation.members.forEach\<close>; \<^verbatim>\<open>member.ref\<close> is a truthiness test on a number.\<close>

fun collectMemberCoords ::
  "(int \<times> element) list \<Rightarrow> element list \<Rightarrow> member list \<Rightarrow> position list list \<Rightarrow> position list list" where
  "collectMemberCoords nodes ways [] memberCoords = memberCoords"
| "collectMemberCoords nodes ways (m # rest) memberCoords =
     (if m_type m = ''way'' \<and> m_ref m \<noteq> 0 then
        (case find (\<lambda>w. el_id w = m_ref m) ways of
           None \<Rightarrow> collectMemberCoords nodes ways rest memberCoords
         | Some way \<Rightarrow>
             (case el_nodes way of
                None \<Rightarrow> collectMemberCoords nodes ways rest memberCoords
              | Some ns \<Rightarrow>
                  (let coords = resolveCoords nodes ns
                   in if length coords > 0 then
                        collectMemberCoords nodes ways rest (memberCoords @ [coords])
                      else collectMemberCoords nodes ways rest memberCoords)))
      else collectMemberCoords nodes ways rest memberCoords)"

fun processRelations ::
  "clipBoundary \<Rightarrow> (int \<times> element) list \<Rightarrow> element list \<Rightarrow> element list
     \<Rightarrow> feature list \<times> nat \<Rightarrow> feature list \<times> nat" where
  "processRelations cb nodes ways [] st = st"
| "processRelations cb nodes ways (relation # rest) (fs, processed) =
     (let fs' =
            (case el_members relation of
               None \<Rightarrow> fs
             | Some ms \<Rightarrow>
                 if length ms > 0 then
                   (let memberCoords = collectMemberCoords nodes ways ms []
                    in if length memberCoords > 0 then
                         (let feat = \<lparr>geometry = MultiLineString memberCoords,
                                      properties = cleanProperties (el_tags relation)\<rparr>;
                              clippedFeature = clipFeatureToBoundary cb feat
                          in case clippedFeature of
                               None \<Rightarrow> fs
                             | Some f \<Rightarrow> if keepClipped clippedFeature then fs @ [f] else fs)
                       else fs)
                 else fs)
      in processRelations cb nodes ways rest (fs', processed + 1))"

definition startEvent :: progressEvent where
  "startEvent = \<lparr>stage = ''process'', message = ''Processing nodes...'', progress = 0\<rparr>"

definition completeEvent :: progressEvent where
  "completeEvent = \<lparr>stage = ''complete'', message = ''Processing complete'', progress = 100\<rparr>"

text \<open>
  \<^verbatim>\<open>osmToGeoJSON(osmData, onProgress)\<close> under the clip boundary \<open>cb\<close>: the collection
  returned, and the sequence of calls the callback received.
\<close>

definition osmToGeoJSON ::
  "clipBoundary \<Rightarrow> osmData \<Rightarrow> bool \<Rightarrow> featureCollection \<times> progressEvent list" where
  "osmToGeoJSON cb osm onProgress =
     (case elements osm of
        None \<Rightarrow> (emptyGeoJSON, [])
      | Some els \<Rightarrow>
          if length els = 0 then (emptyGeoJSON, [])
          else
            (let events0 = (if onProgress then [startEvent] else []);
                 (nodes, ways, relations) = partitionElements els ([], [], []);
                 totalElements = length els;
                 (fs1, processed1, events1) =
                    processNodes cb onProgress totalElements els ([], 0, events0);
                 (fs2, processed2, events2) =
                    processWays cb onProgress nodes (length ways) ways (fs1, processed1, events1);
                 (fs3, processed3) = processRelations cb nodes ways relations (fs2, processed2);
                 events3 = (if onProgress then events2 @ [completeEvent] else events2)
             in (emptyGeoJSON\<lparr>features := fs3\<rparr>, events3)))"

section \<open>geometryProcessor.js: statistics and sampling\<close>

text \<open>
  The counters of \<^verbatim>\<open>getStatistics\<close>. The function also gathers tag keys, tag
  histograms and a bounding box in accumulators of their own; none of them is read
  by the counting branch, and they are left out. A collection always has its
  \<^verbatim>\<open>features\<close> array and a feature its geometry, so the guard
  \<^verbatim>\<open>if (!geojson.features)\<close> of \<^verbatim>\<open>getStatistics\<close> and of \<^verbatim>\<open>getSampleFeatures\<close> is
  never taken.
\<close>

record statistics =
  totalFeatures :: nat
  points :: nat
  lines :: nat
  polygons :: nat
  other :: nat

text \<open>The counting branch of the \<^verbatim>\<open>forEach\<close> in \<^verbatim>\<open>getStatistics\<close>.\<close>

fun countFeatures :: "feature list \<Rightarrow> statistics \<Rightarrow> statistics" where
  "countFeatures [] stats = stats"
| "countFeatures (f # rest) stats =
     (let ty = geometry_type (geometry f)
      in if ty = ''Point'' \<or> ty = ''MultiPoint'' then
           countFeatures rest (stats\<lparr>points := points stats + 1\<rparr>)
         else if ty = ''LineString'' \<or> ty = ''MultiLineString'' then
           countFeatures rest (stats\<lparr>lines := lines stats + 1\<rparr>)
         else if ty = ''Polygon'' \<or> ty = ''MultiPolygon'' then
           countFeatures rest (stats\<lparr>polygons := polygons stats + 1\<rparr>)
         else countFeatures rest (stats\<lparr>other := other stats + 1\<rparr>))"

definition getStatistics :: "featureCollection \<Rightarrow> statistics" where
  "getStatistics geojson =
     (let stats = \<lparr>totalFeatures = 0, points = 0, lines = 0, polygons = 0, other = 0\<rparr>;
          stats1 = stats\<lparr>totalFeatures := length (features geojson)\<rparr>
      in countFeatures (features geojson) stats1)"

definition sampleTypes :: "string list" where
  "sampleTypes = [''Point'', ''LineString'', ''Polygon'']"

text \<open>
  The \<^verbatim>\<open>types.forEach\<close> of \<^verbatim>\<open>getSampleFeatures\<close>, with \<^verbatim>\<open>samples\<close> as accumulator;
  \<open>perType\<close> is \<^verbatim>\<open>Math.ceil(limit / types.length)\<close>.
\<close>

fun sampleLoop :: "feature list \<Rightarrow> nat \<Rightarrow> string list \<Rightarrow> feature list \<Rightarrow> feature list" where
  "sampleLoop fs perType [] samples = samples"
| "sampleLoop fs perType (ty # rest) samples =
     (let featuresOfType = filter (\<lambda>f. geometry_type (geometry f) = ty) fs
      in if length featuresOfType > 0 then
           sampleLoop fs perType rest (samples @ take perType featuresOfType)
         else sampleLoop fs perType rest samples)"

definition getSampleFeatures :: "featureCollection \<Rightarrow> nat \<Rightarrow> feature list" where
  "getSampleFeatures geojson limit =
     (if length (features geojson) = 0 then []
      else
        (let samples =
               sampleLoop (features geojson)
                 (nat \<lceil>real limit / real (length sampleTypes)\<rceil>) sampleTypes []
         in take limit samples))"

section \<open>exportService.js: the geometry filter and the export\<close>

definition typeMap :: "(string \<times> string list) list" where
  "typeMap =
     [(''Point'', [''Point'', ''MultiPoint'']),
      (''LineString'', [''LineString'', ''MultiLineString'']),
      (''Polygon'', [''Polygon'', ''MultiPolygon''])]"

text \<open>
  The set \<^verbatim>\<open>allowed\<close> built from the requested kinds, as the list of its members; a
  requested kind that is no key of \<open>typeMap\<close> adds nothing. (The lookup
  \<^verbatim>\<open>typeMap[type]\<close> is modelled on the three keys of the literal; for a name every
  object inherits, such as \<^verbatim>\<open>toString\<close>, the code finds a function and throws a
  \<^verbatim>\<open>TypeError\<close>. Such names are no geometry kinds, and the statement on the export
  ranges over the three coarse kinds.)
\<close>

fun buildAllowed :: "string list \<Rightarrow> string list \<Rightarrow> string list" where
  "buildAllowed [] allowed = allowed"
| "buildAllowed (ty # rest) allowed =
     (case map_of typeMap ty of
        None \<Rightarrow> buildAllowed rest allowed
      | Some ts \<Rightarrow> buildAllowed rest (allowed @ ts))"

definition filterByGeometry :: "featureCollection \<Rightarrow> string list \<Rightarrow> featureCollection" where
  "filterByGeometry geojson allowedTypes =
     (let allowed = buildAllowed allowedTypes []
      in \<lparr>features = filter (\<lambda>f. geometry_type (geometry f) \<in> set allowed) (features geojson),
          crs = crs geojson\<rparr>)"

text \<open>
  A thrown \<^verbatim>\<open>Error\<close>, by its message. An \<^verbatim>\<open>async\<close> function that throws rejects its
  promise with the error: the caller receives \<open>Inl\<close>.
\<close>

datatype error = Error string

text \<open>
  The body of the \<^verbatim>\<open>try\<close> block of \<^verbatim>\<open>export\<close>. The metadata generator and the five
  encoders work on blobs and archives; they are parameters here:
  \<open>generateMetadata\<close> for the metadata step, \<open>encode\<close> for the encoder the
  \<^verbatim>\<open>switch\<close> selects by the format name, each of them free to throw.
  \<open>geometryFilter\<close> is \<open>None\<close> for \<^verbatim>\<open>null\<close>.
\<close>

definition exportBody ::
  "(featureCollection \<Rightarrow> error + 'm) \<Rightarrow> (string \<Rightarrow> featureCollection \<Rightarrow> 'm \<Rightarrow> error + 'r)
     \<Rightarrow> string \<Rightarrow> featureCollection \<Rightarrow> string list option \<Rightarrow> error + 'r" where
  "exportBody generateMetadata encode format geojson geometryFilter =
     (case (case geometryFilter of
              None \<Rightarrow> Inr geojson
            | Some kinds \<Rightarrow>
                if length kinds > 0 then
                  (let filteredGeoJSON = filterByGeometry geojson kinds
                   in if length (features filteredGeoJSON) = 0 then
                        Inl (Error ''No features match the selected geometry types'')
                      else Inr filteredGeoJSON)
                else Inr geojson) of
        Inl e \<Rightarrow> Inl e
      | Inr filteredGeoJSON \<Rightarrow>
          (case generateMetadata filteredGeoJSON of
             Inl e \<Rightarrow> Inl e
           | Inr metadata \<Rightarrow>
               if format \<in> set [''geojson'', ''shapefile'', ''kml'', ''gpx'', ''osm''] then
                 encode format filteredGeoJSON metadata
               else Inl (Error ''Unsupported export format'')))"

text \<open>\<^verbatim>\<open>export\<close>: the \<^verbatim>\<open>catch\<close> clause wraps whatever the body threw.\<close>

definition export ::
  "(featureCollection \<Rightarrow> error + 'm) \<Rightarrow> (string \<Rightarrow> featureCollection \<Rightarrow> 'm \<Rightarrow> error + 'r)
     \<Rightarrow> string \<Rightarrow> featureCollection \<Rightarrow> string list option \<Rightarrow> error + 'r" where
  "export generateMetadata encode format geojson geometryFilter =
     (case exportBody generateMetadata encode format geojson geometryFilter of
        Inl (Error msg) \<Rightarrow> Inl (Error (''Export failed: '' @ msg))
      | Inr result \<Rightarrow> Inr result)"

section \<open>Predicates used in the statements\<close>

text \<open>An entry that the cleaner lets through: a value that is not empty, a key off the skip list.\<close>

definition cleanEntry :: "string \<times> jsval \<Rightarrow> bool" where
  "cleanEntry e = (snd e \<noteq> JNull \<and> snd e \<noteq> JUndefined \<and> snd e \<noteq> JStr [] \<and> fst e \<notin> set skipFields)"

text \<open>The four buckets of the statistics, as predicates on a feature.\<close>

definition pointLike :: "feature \<Rightarrow> bool" where
  "pointLike f = (geometry_type (geometry f) \<in> set [''Point'', ''MultiPoint''])"

definition lineLike :: "feature \<Rightarrow> bool" where
  "lineLike f = (geometry_type (geometry f) \<in> set [''LineString'', ''MultiLineString''])"

definition polygonLike :: "feature \<Rightarrow> bool" where
  "polygonLike f = (geometry_type (geometry f) \<in> set [''Polygon'', ''MultiPolygon''])"

definition otherLike :: "feature \<Rightarrow> bool" where
  "otherLike f = (\<not> pointLike f \<and> \<not> lineLike f \<and> \<not> polygonLike f)"

text \<open>The features of one geometry type, in collection order.\<close>

definition ofType :: "string \<Rightarrow> feature list \<Rightarrow> feature list" where
  "ofType ty fs = filter (\<lambda>f. geometry_type (geometry f) = ty) fs"

text \<open>The geometry types a coarse kind stands for, read off \<open>typeMap\<close>.\<close>

definition kindMembers :: "string \<Rightarrow> string list" where
  "kindMembers k = (case map_of typeMap k of None \<Rightarrow> [] | Some ts \<Rightarrow> ts)"

text \<open>
  The clip box of a bounds object: containment with inclusive bounds, and the
  coordinate-wise clamp.
\<close>

definition insideBounds :: "latLngBounds \<Rightarrow> position \<Rightarrow> bool" where
  "insideBounds b p =
     (getWest b \<le> fst p \<and> fst p \<le> getEast b \<and> getSouth b \<le> snd p \<and> snd p \<le> getNorth b)"

definition clampToBounds :: "latLngBounds \<Rightarrow> position \<Rightarrow> position" where
  "clampToBounds b p =
     (max (getWest b) (min (getEast b) (fst p)), max (getSouth b) (min (getNorth b) (snd p)))"

text \<open>
  What the vertex at index \<open>i\<close> contributes to the clipped line: itself when inside;
  its clamp when it is outside, some earlier vertex is inside and the next vertex is
  inside; nothing otherwise.
\<close>

definition keptAt :: "latLngBounds \<Rightarrow> position list \<Rightarrow> nat \<Rightarrow> position list" where
  "keptAt b coords i =
     (if insideBounds b (coords ! i) then [coords ! i]
      else if list_ex (insideBounds b) (take i coords) \<and> i + 1 < length coords
              \<and> insideBounds b (coords ! (i + 1))
           then [clampToBounds b (coords ! i)]
      else [])"

text \<open>
  What the passes establish for a LineString feature: it is not empty, and it has at
  least two points when a clip boundary is set. Other geometries are not constrained.
\<close>

definition lineOK :: "clipBoundary \<Rightarrow> feature \<Rightarrow> bool" where
  "lineOK cb f =
     (case geometry f of
        LineString cs \<Rightarrow> 1 \<le> length cs \<and> (cb = None \<or> 2 \<le> length cs)
      | _ \<Rightarrow> True)"

text \<open>A feature of the way pass or of the relation pass: never a Point, and a line within the bound.\<close>

definition laterFeature :: "clipBoundary \<Rightarrow> feature \<Rightarrow> bool" where
  "laterFeature cb f = (lineOK cb f \<and> geometry_type (geometry f) \<noteq> ''Point'')"

text \<open>The condition under which the node pass emits a point, and the point it emits.\<close>

definition nodeEmitted :: "clipBoundary \<Rightarrow> element \<Rightarrow> bool" where
  "nodeEmitted cb el =
     (el_type el = ''node'' \<and> el_lat el \<noteq> 0 \<and> el_lon el \<noteq> 0
      \<and> (case el_tags el of None \<Rightarrow> False | Some t \<Rightarrow> length t > 0)
      \<and> isPointInBoundary cb (el_lon el) (el_lat el))"

definition pointOf :: "element \<Rightarrow> feature" where
  "pointOf el = \<lparr>geometry = Point (el_lon el, el_lat el), properties = cleanProperties (el_tags el)\<rparr>"

section \<open>Statements of the specification, for comparison\<close>

text \<open>
  The classifier as the specification words it: the generic rule fires when one of the
  listed keys is present in the tag mapping.
\<close>

definition hasKey :: "tags \<Rightarrow> string \<Rightarrow> bool" where
  "hasKey t k = (k \<in> fst ` set t)"

definition isArea_claimed :: "tags option \<Rightarrow> bool \<Rightarrow> nat \<Rightarrow> bool" where
  "isArea_claimed tg isClosedRing vertexCount =
     (if \<not> isClosedRing \<or> vertexCount < 4 then False
      else case tg of
        None \<Rightarrow> False
      | Some t \<Rightarrow>
          if getProp t ''area'' = JStr ''yes'' then True
          else if getProp t ''area'' = JStr ''no'' then False
          else list_ex (hasKey t) polygonTags
               \<or> getProp t ''natural'' \<in> set (map JStr [''water'', ''wood'', ''scrub'', ''wetland''])
               \<or> getProp t ''waterway'' \<in> set (map JStr [''riverbank'', ''dock'']))"

text \<open>
  The line clip as the specification words it: every vertex inside is kept, and every
  vertex outside whose next vertex is inside is replaced by its clamp.
\<close>

fun clipLineString_claimed :: "latLngBounds \<Rightarrow> position list \<Rightarrow> position list" where
  "clipLineString_claimed b [] = []"
| "clipLineString_claimed b [p] = (if insideBounds b p then [p] else [])"
| "clipLineString_claimed b (p # q # rest) =
     (if insideBounds b p then p # clipLineString_claimed b (q # rest)
      else if insideBounds b q then clampToBounds b p # clipLineString_claimed b (q # rest)
      else clipLineString_claimed b (q # rest))"

section \<open>Example inputs\<close>

definition pointFeature :: feature where
  "pointFeature = \<lparr>geometry = Point (1, 2), properties = []\<rparr>"

definition lineFeature :: feature where
  "lineFeature = \<lparr>geometry = LineString [(1, 2), (3, 4)], properties = []\<rparr>"

definition collectionFeature :: feature where
  "collectionFeature = \<lparr>geometry = GeometryCollection, properties = []\<rparr>"

definition mixedCollection :: featureCollection where
  "mixedCollection =
     \<lparr>features = [pointFeature, lineFeature, collectionFeature, pointFeature], crs = ''EPSG:4326''\<rparr>"

text \<open>Ten points followed by ten two-point lines.\<close>

definition tenPointsTenLines :: featureCollection where
  "tenPointsTenLines =
     \<lparr>features =
        map (\<lambda>i. \<lparr>geometry = Point (real i, 0), properties = []\<rparr>) [0..<10]
        @ map (\<lambda>i. \<lparr>geometry = LineString [(real i, 0), (real i, 1)], properties = []\<rparr>) [0..<10],
      crs = ''EPSG:4326''\<rparr>"

definition twoLines :: featureCollection where
  "twoLines =
     \<lparr>features = [\<lparr>geometry = LineString [(0, 0), (1, 1)], properties = []\<rparr>,
                  \<lparr>geometry = MultiLineString [[(0, 0), (1, 1)]], properties = []\<rparr>],
      crs = ''EPSG:4326''\<rparr>"

text \<open>A clip box from 0 to 10 in both coordinates.\<close>

definition unitTen :: latLngBounds where
  "unitTen = \<lparr>getWest = 0, getSouth = 0, getEast = 10, getNorth = 10\<rparr>"

text \<open>
  An untagged node, a way over that node and a missing node, and a tagged node on the
  equator.
\<close>

definition plainNode :: element where
  "plainNode = \<lparr>el_type = ''node'', el_id = 1, el_lat = 1, el_lon = 1, el_tags = None,
                 el_nodes = None, el_members = None\<rparr>"

definition danglingWay :: element where
  "danglingWay = \<lparr>el_type = ''way'', el_id = 2, el_lat = 0, el_lon = 0,
                   el_tags = Some [(''highway'', JStr ''residential'')],
                   el_nodes = Some [1, 99], el_members = None\<rparr>"

definition equatorNode :: element where
  "equatorNode = \<lparr>el_type = ''node'', el_id = 7, el_lat = 0, el_lon = 10,
                   el_tags = Some [(''name'', JStr ''Buoy'')],
                   el_nodes = None, el_members = None\<rparr>"

section \<open>Coordinate validation\<close>

text \<open>
  C8. For all real \<open>lat\<close> and \<open>lon\<close>, \<open>isValidCoordinate lat lon\<close> is true exactly when
  \<open>lat\<close> lies in \<open>[-90, 90]\<close> and \<open>lon\<close> lies in \<open>[-180, 180]\<close>; it is false for
  \<open>lat = 91\<close>, \<open>lat = -91\<close>, \<open>lon = 181\<close> and \<open>lon = -181\<close>, whatever the other
  argument is.
\<close>

theorem isValidCoordinate_iff:
  "(isValidCoordinate lat lon \<longleftrightarrow> lat \<in> {-90..90} \<and> lon \<in> {-180..180})
   \<and> \<not> isValidCoordinate 91 lon \<and> \<not> isValidCoordinate (-91) lon
   \<and> \<not> isValidCoordinate lat 181 \<and> \<not> isValidCoordinate lat (-181)"
  by (simp add: isValidCoordinate_def)

section \<open>The area classifier\<close>

lemma anyPolygonTag_iff:
  "anyPolygonTag t ks \<longleftrightarrow> (\<exists>k \<in> set ks. \<exists>s. map_of t k = Some (JStr s) \<and> s \<noteq> [])"
proof (induction ks)
  case Nil
  show ?case by simp
next
  case (Cons k ks)
  have "truthy (getProp t k) \<longleftrightarrow> (\<exists>s. map_of t k = Some (JStr s) \<and> s \<noteq> [])"
    by (cases "map_of t k"; cases "getProp t k") (auto simp: getProp_def)
  with Cons show ?case by auto
qed

text \<open>
  C1, as stated, fails: a way that is closed, has four vertices and carries the key
  \<open>building\<close> with an empty value is an area by the stated rule (the key is present),
  and the code answers false, because it tests the value for truthiness.
\<close>

theorem isAreaFeature_empty_value_counterexample:
  "isArea_claimed (Some [(''building'', JStr [])]) True 4
   \<and> \<not> isAreaFeature (Some [(''building'', JStr [])]) True 4"
  by (simp add: isArea_claimed_def isAreaFeature_def getProp_def polygonTags_def hasKey_def)

text \<open>
  C1, amended. For every tag mapping, closure flag and vertex count,
  \<open>isAreaFeature\<close> is true exactly when the way is closed, has at least four
  vertices, has tags, and either \<open>area\<close> is \<open>yes\<close>, or \<open>area\<close> is not \<open>no\<close> and one
  of the thirteen keys carries a non-empty string value, or \<open>natural\<close> is one of
  water, wood, scrub, wetland, or \<open>waterway\<close> is riverbank or dock. In every other
  case it is false.
\<close>

theorem isAreaFeature_characterisation:
  "isAreaFeature tg isClosed n \<longleftrightarrow>
     isClosed \<and> n \<ge> 4 \<and>
     (\<exists>t. tg = Some t \<and>
        (getProp t ''area'' = JStr ''yes''
         \<or> (getProp t ''area'' \<noteq> JStr ''no''
             \<and> ((\<exists>k \<in> set polygonTags. \<exists>s. map_of t k = Some (JStr s) \<and> s \<noteq> [])
                \<or> getProp t ''natural'' \<in> set (map JStr [''water'', ''wood'', ''scrub'', ''wetland''])
                \<or> getProp t ''waterway'' \<in> set (map JStr [''riverbank'', ''dock''])))))"
  unfolding isAreaFeature_def anyPolygonTag_iff
  by (cases tg) auto

theorem isAreaFeature_characterisation_witness:
  "isAreaFeature (Some [(''waterway'', JStr ''dock'')]) True 5
   \<and> isAreaFeature (Some [(''building'', JStr ''yes'')]) True 4
   \<and> \<not> isAreaFeature (Some [(''building'', JStr ''yes''), (''area'', JStr ''no'')]) True 4
   \<and> \<not> isAreaFeature (Some [(''building'', JStr ''yes'')]) True 3"
  using isAreaFeature_characterisation [of "Some [(''waterway'', JStr ''dock'')]" True 5]
    isAreaFeature_characterisation [of "Some [(''building'', JStr ''yes'')]" True 4]
    isAreaFeature_characterisation [of "Some [(''building'', JStr ''yes''), (''area'', JStr ''no'')]" True 4]
    isAreaFeature_characterisation [of "Some [(''building'', JStr ''yes'')]" True 3]
  by (simp add: getProp_def polygonTags_def)

section \<open>The property cleaner\<close>

lemma set_assign: "set (assign xs k v) \<subseteq> insert (k, v) (set xs)"
  by (induction xs k v rule: assign.induct) auto

lemma keys_assign: "fst ` set (assign xs k v) = insert k (fst ` set xs)"
  by (induction xs k v rule: assign.induct) auto

lemma distinct_assign: "distinct (map fst xs) \<Longrightarrow> distinct (map fst (assign xs k v))"
proof (induction xs k v rule: assign.induct)
  case (1 k v)
  show ?case by simp
next
  case (2 k' v' rest k v)
  then show ?case by (auto simp: keys_assign)
qed

lemma assign_fresh: "k \<notin> fst ` set xs \<Longrightarrow> assign xs k v = xs @ [(k, v)]"
  by (induction xs k v rule: assign.induct) auto

lemma cleanLoop_entries:
  "\<forall>e \<in> set acc. cleanEntry e \<Longrightarrow> \<forall>e \<in> set (cleanLoop es acc). cleanEntry e"
proof (induction es arbitrary: acc)
  case Nil
  then show ?case by simp
next
  case (Cons e es)
  obtain k v where e: "e = (k, v)" by (cases e)
  show ?case
  proof (cases "v = JNull \<or> v = JUndefined \<or> v = JStr [] \<or> k \<in> set skipFields")
    case True
    then have "cleanLoop (e # es) acc = cleanLoop es acc"
      unfolding e by auto
    with Cons show ?thesis by simp
  next
    case False
    then have step: "cleanLoop (e # es) acc = cleanLoop es (assign acc k v)"
      unfolding e by simp
    have "cleanEntry (k, v)"
      using False by (simp add: cleanEntry_def)
    then have "\<forall>x \<in> set (assign acc k v). cleanEntry x"
      using set_assign [of acc k v] Cons.prems by blast
    then have "\<forall>x \<in> set (cleanLoop es (assign acc k v)). cleanEntry x"
      by (rule Cons.IH)
    with step show ?thesis by simp
  qed
qed

lemma cleanLoop_distinct:
  "distinct (map fst acc) \<Longrightarrow> distinct (map fst (cleanLoop es acc))"
proof (induction es arbitrary: acc)
  case Nil
  then show ?case by simp
next
  case (Cons e es)
  obtain k v where e: "e = (k, v)" by (cases e)
  have "distinct (map fst (assign acc k v))"
    using Cons.prems by (rule distinct_assign)
  then have "distinct (map fst (cleanLoop es (assign acc k v)))"
    by (rule Cons.IH)
  moreover have "distinct (map fst (cleanLoop es acc))"
    using Cons.prems by (rule Cons.IH)
  ultimately show ?case
    unfolding e by simp
qed

lemma cleanLoop_fixed:
  "\<forall>e \<in> set es. cleanEntry e \<Longrightarrow> distinct (map fst es) \<Longrightarrow> fst ` set es \<inter> fst ` set acc = {}
     \<Longrightarrow> cleanLoop es acc = acc @ es"
proof (induction es arbitrary: acc)
  case Nil
  show ?case by simp
next
  case (Cons e es)
  obtain k v where e: "e = (k, v)" by (cases e)
  from Cons.prems(1) e have ok: "v \<noteq> JNull" "v \<noteq> JUndefined" "v \<noteq> JStr []" "k \<notin> set skipFields"
    by (simp_all add: cleanEntry_def)
  from Cons.prems(3) e have fresh: "k \<notin> fst ` set acc" by auto
  have step: "cleanLoop (e # es) acc = cleanLoop es (acc @ [(k, v)])"
    unfolding e using ok by (simp add: assign_fresh [OF fresh])
  have a: "\<forall>x \<in> set es. cleanEntry x"
    using Cons.prems(1) by simp
  have b: "distinct (map fst es)"
    using Cons.prems(2) by simp
  have c: "fst ` set es \<inter> fst ` set (acc @ [(k, v)]) = {}"
    using Cons.prems(2,3) e by auto
  have "cleanLoop es (acc @ [(k, v)]) = (acc @ [(k, v)]) @ es"
    using a b c by (rule Cons.IH)
  with step e show ?case by simp
qed

text \<open>
  C9. For every tag mapping (also an absent one), cleaning the cleaned tags gives the
  cleaned tags again, and the cleaned tags hold no key of the skip list and no value
  that is \<^verbatim>\<open>null\<close>, \<^verbatim>\<open>undefined\<close> or the empty string.
\<close>

theorem cleanProperties_idempotent:
  "cleanProperties (Some (cleanProperties tg)) = cleanProperties tg
   \<and> (\<forall>(k, v) \<in> set (cleanProperties tg).
         k \<notin> set skipFields \<and> v \<noteq> JNull \<and> v \<noteq> JUndefined \<and> v \<noteq> JStr [])"
proof (cases tg)
  case None
  then show ?thesis by (simp add: cleanProperties_def)
next
  case (Some t)
  have ok: "\<forall>e \<in> set (cleanLoop t []). cleanEntry e"
    by (rule cleanLoop_entries) simp
  have d: "distinct (map fst (cleanLoop t []))"
    by (rule cleanLoop_distinct) simp
  have "cleanLoop (cleanLoop t []) [] = [] @ cleanLoop t []"
    using ok d by (rule cleanLoop_fixed) simp
  then have idem: "cleanProperties (Some (cleanProperties tg)) = cleanProperties tg"
    using Some by (simp add: cleanProperties_def)
  have "\<forall>(k, v) \<in> set (cleanProperties tg).
         k \<notin> set skipFields \<and> v \<noteq> JNull \<and> v \<noteq> JUndefined \<and> v \<noteq> JStr []"
    using ok Some unfolding cleanProperties_def cleanEntry_def by fastforce
  with idem show ?thesis by simp
qed

theorem cleanProperties_idempotent_witness:
  "cleanProperties (Some (cleanProperties (Some
       [(''name'', JStr ''Park''), (''source'', JStr ''survey''), (''note'', JStr []), (''ref'', JNull)])))
     = [(''name'', JStr ''Park'')]"
  using cleanProperties_idempotent
    [of "Some [(''name'', JStr ''Park''), (''source'', JStr ''survey''), (''note'', JStr []), (''ref'', JNull)]"]
  by (simp add: cleanProperties_def skipFields_def)

section \<open>Statistics\<close>

lemma countFeatures_counts:
  "countFeatures fs st =
     st\<lparr>points := points st + length (filter pointLike fs),
        lines := lines st + length (filter lineLike fs),
        polygons := polygons st + length (filter polygonLike fs),
        other := other st + length (filter otherLike fs)\<rparr>"
proof (induction fs arbitrary: st)
  case Nil
  show ?case by simp
next
  case (Cons f fs)
  show ?case
    by (cases "geometry f")
       (simp_all add: Cons.IH Let_def pointLike_def lineLike_def polygonLike_def otherLike_def)
qed

lemma bucket_partition:
  "length (filter pointLike fs) + length (filter lineLike fs)
     + length (filter polygonLike fs) + length (filter otherLike fs) = length fs"
proof (induction fs)
  case Nil
  show ?case by simp
next
  case (Cons f fs)
  then show ?case
    by (cases "geometry f") (simp_all add: pointLike_def lineLike_def polygonLike_def otherLike_def)
qed

text \<open>
  C10. For every feature collection, the statistics count every feature in exactly one
  of the four buckets: \<open>totalFeatures\<close> is the number of features, the four bucket
  counters add up to it, and each counter is the number of features whose geometry
  type falls in its bucket (everything outside the six listed types is \<open>other\<close>).
\<close>

theorem getStatistics_buckets:
  "totalFeatures (getStatistics g) = length (features g)
   \<and> points (getStatistics g) + lines (getStatistics g) + polygons (getStatistics g)
       + other (getStatistics g) = totalFeatures (getStatistics g)
   \<and> points (getStatistics g) = length (filter pointLike (features g))
   \<and> lines (getStatistics g) = length (filter lineLike (features g))
   \<and> polygons (getStatistics g) = length (filter polygonLike (features g))
   \<and> other (getStatistics g) = length (filter otherLike (features g))"
  using bucket_partition [of "features g"]
  by (simp add: getStatistics_def countFeatures_counts)

theorem getStatistics_buckets_witness:
  "points (getStatistics mixedCollection) = 2
   \<and> lines (getStatistics mixedCollection) = 1
   \<and> polygons (getStatistics mixedCollection) = 0
   \<and> other (getStatistics mixedCollection) = 1
   \<and> totalFeatures (getStatistics mixedCollection) = 4"
  using getStatistics_buckets [of mixedCollection]
  by (simp add: mixedCollection_def pointLike_def lineLike_def polygonLike_def otherLike_def
      pointFeature_def lineFeature_def collectionFeature_def)


section \<open>Sampling\<close>

lemma perType_6: "nat \<lceil>(6::real) / real (length sampleTypes)\<rceil> = 2"
  by (simp add: sampleTypes_def)

lemma sample_six_result:
  assumes "length (ofType ''Point'' (features g)) = 10"
    and "length (ofType ''LineString'' (features g)) = 10"
    and "length (ofType ''Polygon'' (features g)) = 0"
  shows "getSampleFeatures g 6
           = take 2 (ofType ''Point'' (features g)) @ take 2 (ofType ''LineString'' (features g))"
proof -
  from assms(1) have ne: "length (features g) \<noteq> 0"
    unfolding ofType_def by (cases "features g") auto
  have loop: "sampleLoop (features g) 2 sampleTypes []
        = take 2 (ofType ''Point'' (features g)) @ take 2 (ofType ''LineString'' (features g))"
    using assms by (simp add: sampleTypes_def ofType_def Let_def)
  have "length (take 2 (ofType ''Point'' (features g)) @ take 2 (ofType ''LineString'' (features g))) = 4"
    using assms(1,2) by simp
  then have "take 6 (take 2 (ofType ''Point'' (features g)) @ take 2 (ofType ''LineString'' (features g)))
        = take 2 (ofType ''Point'' (features g)) @ take 2 (ofType ''LineString'' (features g))"
    by (intro take_all) simp
  with ne show ?thesis
    by (simp add: getSampleFeatures_def perType_6 loop Let_def)
qed

text \<open>
  C6, amended. On every collection with exactly 10 Point features, 10 LineString
  features and no Polygon feature, \<open>getSampleFeatures\<close> with limit 6 returns exactly 4
  features: the first 2 Point features followed by the first 2 LineString features, in
  collection order (\<open>ceil(6/3) = 2\<close> per kind; the Polygon kind adds none, and the
  truncation to 6 removes nothing). Only Point and LineString kinds occur.
\<close>

theorem getSampleFeatures_six:
  assumes "length (ofType ''Point'' (features g)) = 10"
    and "length (ofType ''LineString'' (features g)) = 10"
    and "length (ofType ''Polygon'' (features g)) = 0"
  shows "getSampleFeatures g 6
           = take 2 (ofType ''Point'' (features g)) @ take 2 (ofType ''LineString'' (features g))
         \<and> length (getSampleFeatures g 6) = 4
         \<and> (\<forall>f \<in> set (getSampleFeatures g 6).
               geometry_type (geometry f) = ''Point'' \<or> geometry_type (geometry f) = ''LineString'')"
proof -
  note res = sample_six_result [OF assms]
  have len: "length (getSampleFeatures g 6) = 4"
    using assms(1,2) by (simp add: res)
  have kinds: "\<forall>f \<in> set (getSampleFeatures g 6).
        geometry_type (geometry f) = ''Point'' \<or> geometry_type (geometry f) = ''LineString''"
    unfolding res ofType_def by (auto dest!: in_set_takeD)
  from res len kinds show ?thesis by blast
qed

lemma tenPointsTenLines_counts:
  "length (ofType ''Point'' (features tenPointsTenLines)) = 10"
  "length (ofType ''LineString'' (features tenPointsTenLines)) = 10"
  "length (ofType ''Polygon'' (features tenPointsTenLines)) = 0"
  by (simp_all add: tenPointsTenLines_def ofType_def)

theorem getSampleFeatures_six_witness:
  "length (ofType ''Point'' (features tenPointsTenLines)) = 10
   \<and> length (ofType ''LineString'' (features tenPointsTenLines)) = 10
   \<and> length (ofType ''Polygon'' (features tenPointsTenLines)) = 0
   \<and> length (getSampleFeatures tenPointsTenLines 6) = 4"
  using getSampleFeatures_six [OF tenPointsTenLines_counts] tenPointsTenLines_counts
  by simp

text \<open>
  C6, as stated, fails: on ten points followed by ten lines the sample for limit 6 has
  4 features, not 6.
\<close>

theorem getSampleFeatures_six_counterexample:
  "length (ofType ''Point'' (features tenPointsTenLines)) = 10
   \<and> length (ofType ''LineString'' (features tenPointsTenLines)) = 10
   \<and> length (ofType ''Polygon'' (features tenPointsTenLines)) = 0
   \<and> length (getSampleFeatures tenPointsTenLines 6) \<noteq> 6"
  using tenPointsTenLines_counts
  by (simp add: sample_six_result [OF tenPointsTenLines_counts])

section \<open>Export with a geometry filter\<close>

lemma set_buildAllowed:
  "set (buildAllowed kinds allowed) = set allowed \<union> (\<Union>k \<in> set kinds. set (kindMembers k))"
proof (induction kinds arbitrary: allowed)
  case Nil
  show ?case by simp
next
  case (Cons k kinds)
  show ?case
    by (cases "map_of typeMap k") (auto simp: Cons.IH kindMembers_def)
qed

lemma features_filterByGeometry:
  "features (filterByGeometry g kinds)
     = filter (\<lambda>f. \<exists>k \<in> set kinds. geometry_type (geometry f) \<in> set (kindMembers k)) (features g)"
  by (simp add: filterByGeometry_def set_buildAllowed)

text \<open>
  C5. For every feature collection and every non-empty list of requested coarse kinds
  (Point, LineString, Polygon): if no feature has a geometry type of a requested kind,
  the filtered collection is empty and \<open>export\<close> fails with the error
  \<^verbatim>\<open>Export failed: No features match the selected geometry types\<close>, whatever the
  format, the metadata generator and the encoders are; nothing is exported.
\<close>

theorem export_empty_result:
  assumes "kinds \<noteq> []"
    and "set kinds \<subseteq> {''Point'', ''LineString'', ''Polygon''}"
    and "\<forall>f \<in> set (features g). \<forall>k \<in> set kinds. geometry_type (geometry f) \<notin> set (kindMembers k)"
  shows "features (filterByGeometry g kinds) = []
         \<and> export generateMetadata encode format g (Some kinds)
             = Inl (Error ''Export failed: No features match the selected geometry types'')"
proof -
  have empty: "features (filterByGeometry g kinds) = []"
    unfolding features_filterByGeometry using assms(3) by (simp add: filter_empty_conv)
  have "exportBody generateMetadata encode format g (Some kinds)
          = Inl (Error ''No features match the selected geometry types'')"
    using assms(1) empty by (simp add: exportBody_def)
  then have "export generateMetadata encode format g (Some kinds)
          = Inl (Error ''Export failed: No features match the selected geometry types'')"
    by (simp add: export_def)
  with empty show ?thesis by simp
qed

theorem export_empty_result_witness:
  "export (\<lambda>g. Inr ()) (\<lambda>fmt g m. Inr (length (features g))) ''geojson'' twoLines (Some [''Polygon'', ''Point''])
     = Inl (Error ''Export failed: No features match the selected geometry types'')"
proof -
  have a: "[''Polygon'', ''Point''] \<noteq> []" by simp
  have b: "set [''Polygon'', ''Point''] \<subseteq> {''Point'', ''LineString'', ''Polygon''}" by simp
  have c: "\<forall>f \<in> set (features twoLines). \<forall>k \<in> set [''Polygon'', ''Point''].
             geometry_type (geometry f) \<notin> set (kindMembers k)"
    by (simp add: twoLines_def kindMembers_def typeMap_def)
  from export_empty_result [OF a b c, where generateMetadata = "\<lambda>g. Inr ()"
      and encode = "\<lambda>fmt g m. Inr (length (features g))" and format = "''geojson''"]
  show ?thesis by simp
qed

section \<open>Clipping a line\<close>

lemma boundary_reads:
  "setClipBoundary (Some b) = Some c \<Longrightarrow>
     minLonOf c = getWest b \<and> maxLonOf c = getEast b \<and> minLatOf c = getSouth b \<and> maxLatOf c = getNorth b"
  by (auto simp: setClipBoundary_def minLonOf_def maxLonOf_def minLatOf_def maxLatOf_def)

lemma loop_done:
  "\<not> i < length coords \<Longrightarrow> clipLineStringLoop w e s n coords i clipped = clipped"
  by (subst clipLineStringLoop.simps) simp

lemma loop_step:
  assumes "i < length coords"
  shows "clipLineStringLoop (getWest b) (getEast b) (getSouth b) (getNorth b) coords i clipped =
     (if insideBounds b (coords ! i) then
        clipLineStringLoop (getWest b) (getEast b) (getSouth b) (getNorth b) coords (Suc i)
          (clipped @ [coords ! i])
      else if clipped \<noteq> [] \<and> Suc i < length coords \<and> insideBounds b (coords ! Suc i) then
        clipLineStringLoop (getWest b) (getEast b) (getSouth b) (getNorth b) coords (Suc i)
          (clipped @ [clampToBounds b (coords ! i)])
      else clipLineStringLoop (getWest b) (getEast b) (getSouth b) (getNorth b) coords (Suc i) clipped)"
  using assms
  by (subst clipLineStringLoop.simps)
     (auto simp: insideBounds_def clampToBounds_def clipPointToBoundary_def split: prod.splits)

lemma loop_kept:
  assumes "i \<le> length coords"
    and "(clipped \<noteq> []) = list_ex (insideBounds b) (take i coords)"
  shows "clipLineStringLoop (getWest b) (getEast b) (getSouth b) (getNorth b) coords i clipped
           = clipped @ concat (map (keptAt b coords) [i..<length coords])"
  using assms
proof (induction "length coords - i" arbitrary: i clipped)
  case 0
  then have "\<not> i < length coords" by simp
  then show ?case by (simp add: loop_done)
next
  case (Suc k)
  then have lt: "i < length coords" by simp
  then have range: "[i..<length coords] = i # [Suc i..<length coords]"
    by (simp add: upt_conv_Cons)
  have tk: "take (Suc i) coords = take i coords @ [coords ! i]"
    using lt by (simp add: take_Suc_conv_app_nth)
  have k: "k = length coords - Suc i" using Suc.hyps(2) by simp
  have le: "Suc i \<le> length coords" using lt by simp
  consider (inside) "insideBounds b (coords ! i)"
    | (clamp) "\<not> insideBounds b (coords ! i)" "clipped \<noteq> []" "Suc i < length coords"
        "insideBounds b (coords ! Suc i)"
    | (drop) "\<not> insideBounds b (coords ! i)"
        "\<not> (clipped \<noteq> [] \<and> Suc i < length coords \<and> insideBounds b (coords ! Suc i))"
    by blast
  then show ?case
  proof cases
    case inside
    have inv: "(clipped @ [coords ! i] \<noteq> []) = list_ex (insideBounds b) (take (Suc i) coords)"
      using inside by (simp add: tk list_ex_iff)
    have "clipLineStringLoop (getWest b) (getEast b) (getSouth b) (getNorth b) coords (Suc i)
            (clipped @ [coords ! i])
          = (clipped @ [coords ! i]) @ concat (map (keptAt b coords) [Suc i..<length coords])"
      using k le inv by (rule Suc.hyps(1))
    moreover have "keptAt b coords i = [coords ! i]"
      using inside by (simp add: keptAt_def)
    ultimately show ?thesis
      using inside by (simp add: loop_step [OF lt] range)
  next
    case clamp
    have seen: "list_ex (insideBounds b) (take i coords)"
      using clamp(2) Suc.prems(2) by simp
    have inv: "(clipped @ [clampToBounds b (coords ! i)] \<noteq> [])
                 = list_ex (insideBounds b) (take (Suc i) coords)"
      using seen by (simp add: tk list_ex_iff)
    have "clipLineStringLoop (getWest b) (getEast b) (getSouth b) (getNorth b) coords (Suc i)
            (clipped @ [clampToBounds b (coords ! i)])
          = (clipped @ [clampToBounds b (coords ! i)])
            @ concat (map (keptAt b coords) [Suc i..<length coords])"
      using k le inv by (rule Suc.hyps(1))
    moreover have "keptAt b coords i = [clampToBounds b (coords ! i)]"
      using clamp seen by (simp add: keptAt_def)
    ultimately show ?thesis
      using clamp by (simp add: loop_step [OF lt] range)
  next
    case drop
    have inv: "(clipped \<noteq> []) = list_ex (insideBounds b) (take (Suc i) coords)"
      using drop(1) Suc.prems(2) by (simp add: tk list_ex_iff)
    have "clipLineStringLoop (getWest b) (getEast b) (getSouth b) (getNorth b) coords (Suc i) clipped
          = clipped @ concat (map (keptAt b coords) [Suc i..<length coords])"
      using k le inv by (rule Suc.hyps(1))
    moreover have "keptAt b coords i = []"
      using drop Suc.prems(2) by (auto simp: keptAt_def)
    ultimately show ?thesis
      using drop by (auto simp: loop_step [OF lt] range)
  qed
qed

lemma clipLineString_kept:
  "clipLineString (setClipBoundary (Some b)) coords
     = concat (map (keptAt b coords) [0..<length coords])"
proof -
  obtain c where c: "setClipBoundary (Some b) = Some c"
    by (simp add: setClipBoundary_def)
  note r = boundary_reads [OF c]
  have "clipLineStringLoop (getWest b) (getEast b) (getSouth b) (getNorth b) coords 0 []
          = [] @ concat (map (keptAt b coords) [0..<length coords])"
    by (rule loop_kept) simp_all
  then show ?thesis
    by (simp add: clipLineString_def c r)
qed


text \<open>
  C3, amended. For every coordinate list and every clip boundary set from a bounds
  object, the clipped line is, in order, what each vertex contributes: a vertex inside
  the boundary (inclusive bounds) is kept; a vertex outside whose immediate next vertex
  is inside is replaced by its coordinate-wise clamp to the box when some earlier vertex
  of the line is inside, and is dropped when no earlier vertex is inside; every other
  vertex is dropped. The clipped LineString feature is kept exactly when at least 2
  points remain, and is \<open>None\<close> (null) otherwise.
\<close>

theorem clipLineString_vertices:
  "clipLineString (setClipBoundary (Some b)) coords
     = concat (map (keptAt b coords) [0..<length coords])
   \<and> clipFeatureToBoundary (setClipBoundary (Some b)) \<lparr>geometry = LineString coords, properties = ps\<rparr>
     = (if length (clipLineString (setClipBoundary (Some b)) coords) \<ge> 2
        then Some \<lparr>geometry = LineString (clipLineString (setClipBoundary (Some b)) coords),
                    properties = ps\<rparr>
        else None)"
proof -
  obtain c where c: "setClipBoundary (Some b) = Some c"
    by (simp add: setClipBoundary_def)
  have "clipFeatureToBoundary (setClipBoundary (Some b)) \<lparr>geometry = LineString coords, properties = ps\<rparr>
     = (if length (clipLineString (setClipBoundary (Some b)) coords) \<ge> 2
        then Some \<lparr>geometry = LineString (clipLineString (setClipBoundary (Some b)) coords),
                    properties = ps\<rparr>
        else None)"
    unfolding c by (simp add: clipFeatureToBoundary_def Let_def not_less)
  with clipLineString_kept show ?thesis by simp
qed

lemma upt_4: "[0..<4] = [0, 1, 2, 3]"
  by (simp add: upt_rec)

lemma upt_3: "[0..<3] = [0, 1, 2]"
  by (simp add: upt_rec)

theorem clipLineString_vertices_witness:
  "clipLineString (setClipBoundary (Some unitTen)) [(5, 5), (20, 5), (6, 6), (30, 30)]
     = [(5, 5), (10, 5), (6, 6)]
   \<and> clipFeatureToBoundary (setClipBoundary (Some unitTen))
        \<lparr>geometry = LineString [(5, 5), (20, 5), (6, 6), (30, 30)], properties = []\<rparr>
     = Some \<lparr>geometry = LineString [(5, 5), (10, 5), (6, 6)], properties = []\<rparr>"
  using clipLineString_vertices [of unitTen "[(5, 5), (20, 5), (6, 6), (30, 30)]" "[]"]
  by (simp add: upt_4 keptAt_def insideBounds_def clampToBounds_def unitTen_def)

text \<open>
  C3, as stated, fails: a line that starts outside the box and enters it loses its
  first vertex; the stated rule would put the clamp \<open>(10, 5)\<close> in its place.
\<close>

theorem clipLineString_leading_vertex_counterexample:
  "clipLineString_claimed unitTen [(20, 5), (5, 5), (6, 6)] = [(10, 5), (5, 5), (6, 6)]
   \<and> clipLineString (setClipBoundary (Some unitTen)) [(20, 5), (5, 5), (6, 6)] = [(5, 5), (6, 6)]"
  by (simp add: clipLineString_kept upt_3 keptAt_def insideBounds_def clampToBounds_def unitTen_def)

section \<open>The converter\<close>

lemma processNodes_features:
  "fst (processNodes cb p tot els (fs, n, ev)) = fs @ map pointOf (filter (nodeEmitted cb) els)"
proof (induction els arbitrary: fs n ev)
  case Nil
  show ?case by simp
next
  case (Cons el els)
  show ?case
    by (simp add: Let_def Cons.IH nodeEmitted_def pointOf_def)
qed

lemma processNodes_events:
  "\<exists>more. snd (snd (processNodes cb p tot els (fs, n, ev))) = ev @ more"
proof (induction els arbitrary: fs n ev)
  case Nil
  show ?case by simp
next
  case (Cons el els)
  obtain fs' ev' where step:
    "processNodes cb p tot (el # els) (fs, n, ev) = processNodes cb p tot els (fs', n + 1, ev')"
    and ev': "\<exists>m. ev' = ev @ m"
    by (simp add: Let_def)
  from Cons.IH [of fs' "n + 1" ev'] ev' show ?case
    unfolding step by auto
qed


lemma clip_linestring:
  assumes "clipFeatureToBoundary cb \<lparr>geometry = LineString coords, properties = ps\<rparr> = Some f"
    and "1 \<le> length coords"
  shows "laterFeature cb f"
proof (cases cb)
  case None
  with assms show ?thesis by (auto simp: clipFeatureToBoundary_def laterFeature_def lineOK_def)
next
  case (Some c)
  with assms(1) show ?thesis
    by (auto simp: clipFeatureToBoundary_def laterFeature_def lineOK_def Let_def split: if_splits)
qed

lemma clip_polygon:
  assumes "clipFeatureToBoundary cb \<lparr>geometry = Polygon rings, properties = ps\<rparr> = Some f"
  shows "laterFeature cb f"
  using assms
  by (cases cb)
     (auto simp: clipFeatureToBoundary_def laterFeature_def lineOK_def Let_def split: if_splits)

lemma clip_multilinestring:
  assumes "clipFeatureToBoundary cb \<lparr>geometry = MultiLineString ls, properties = ps\<rparr> = Some f"
  shows "laterFeature cb f"
  using assms
  by (cases cb)
     (auto simp: clipFeatureToBoundary_def laterFeature_def lineOK_def Let_def split: if_splits)

lemma processWays_step:
  "\<exists>fs' n' ev'.
     processWays cb p nodes wl (way # rest) (fs, n, ev) = processWays cb p nodes wl rest (fs', n', ev')
     \<and> (fs' = fs \<or> (\<exists>f. fs' = fs @ [f] \<and> laterFeature cb f))
     \<and> (\<exists>m. ev' = ev @ m)"
proof -
  have skip: ?thesis
    if "processWays cb p nodes wl (way # rest) (fs, n, ev) = processWays cb p nodes wl rest (fs, n, ev)"
    using that by (intro exI [of _ fs] exI [of _ n] exI [of _ ev]) simp
  show ?thesis
  proof (cases "el_nodes way")
    case None
    then show ?thesis by (intro skip) simp
  next
    case (Some ns)
    show ?thesis
    proof (cases "length ns = 0 \<or> length (resolveCoords nodes ns) = 0")
      case True
      with Some show ?thesis by (intro skip) (auto simp: Let_def)
    next
      case False
      define coords where "coords = resolveCoords nodes ns"
      define isArea where
        "isArea = isAreaFeature (el_tags way) (ns ! 0 = ns ! (length ns - 1)) (length coords)"
      define feat where
        "feat = \<lparr>geometry = (if isArea then Polygon [coords] else LineString coords),
                  properties = cleanProperties (el_tags way)\<rparr>"
      define fs' where
        "fs' = (case clipFeatureToBoundary cb feat of
                  None \<Rightarrow> fs
                | Some f \<Rightarrow> if keepClipped (clipFeatureToBoundary cb feat) then fs @ [f] else fs)"
      define ev' where
        "ev' = (if p \<and> (n + 1) mod 50 = 0 then
                  ev @ [\<lparr>stage = ''process'', message = ''Processing ways...'',
                          progress = 50 + \<lfloor>(real_of_int (int (n + 1) - int (length nodes))
                                               / real wl) * 40\<rfloor>\<rparr>]
                else ev)"
      have len: "1 \<le> length coords"
        using False by (cases "resolveCoords nodes ns") (simp_all add: coords_def)
      have ok: "laterFeature cb f" if "clipFeatureToBoundary cb feat = Some f" for f
        using that len clip_linestring clip_polygon unfolding feat_def by (cases isArea) auto
      have step: "processWays cb p nodes wl (way # rest) (fs, n, ev)
                    = processWays cb p nodes wl rest (fs', n + 1, ev')"
        unfolding fs'_def ev'_def feat_def isArea_def coords_def
        using Some False by (simp add: Let_def)
      have a: "fs' = fs \<or> (\<exists>f. fs' = fs @ [f] \<and> laterFeature cb f)"
        using ok unfolding fs'_def by (cases "clipFeatureToBoundary cb feat") auto
      have b: "\<exists>m. ev' = ev @ m"
        unfolding ev'_def by simp
      from step a b show ?thesis by blast
    qed
  qed
qed

lemma processWays_later:
  "\<exists>more. fst (processWays cb p nodes wl ws (fs, n, ev)) = fs @ more
            \<and> (\<forall>f \<in> set more. laterFeature cb f)"
proof (induction ws arbitrary: fs n ev)
  case Nil
  show ?case by simp
next
  case (Cons way ws)
  obtain fs' n' ev' where
    step: "processWays cb p nodes wl (way # ws) (fs, n, ev) = processWays cb p nodes wl ws (fs', n', ev')"
    and fs': "fs' = fs \<or> (\<exists>f. fs' = fs @ [f] \<and> laterFeature cb f)"
    using processWays_step [of cb p nodes wl way ws fs n ev] by blast
  obtain more where more: "fst (processWays cb p nodes wl ws (fs', n', ev')) = fs' @ more"
    "\<forall>f \<in> set more. laterFeature cb f"
    using Cons.IH [of fs' n' ev'] by blast
  from fs' show ?case
  proof
    assume "fs' = fs"
    with more show ?thesis unfolding step by blast
  next
    assume "\<exists>f. fs' = fs @ [f] \<and> laterFeature cb f"
    then obtain f where f: "fs' = fs @ [f]" "laterFeature cb f" by blast
    have "fst (processWays cb p nodes wl ws (fs', n', ev')) = fs @ (f # more)"
      using more(1) f(1) by simp
    moreover have "\<forall>x \<in> set (f # more). laterFeature cb x"
      using more(2) f(2) by simp
    ultimately show ?thesis unfolding step by blast
  qed
qed

lemma processWays_events:
  "\<exists>more. snd (snd (processWays cb p nodes wl ws (fs, n, ev))) = ev @ more"
proof (induction ws arbitrary: fs n ev)
  case Nil
  show ?case by simp
next
  case (Cons way ws)
  obtain fs' n' ev' where
    step: "processWays cb p nodes wl (way # ws) (fs, n, ev) = processWays cb p nodes wl ws (fs', n', ev')"
    and ev': "\<exists>m. ev' = ev @ m"
    using processWays_step [of cb p nodes wl way ws fs n ev] by blast
  from Cons.IH [of fs' n' ev'] ev' show ?case
    unfolding step by auto
qed

lemma processRelations_later:
  "\<exists>more. fst (processRelations cb nodes ways rs (fs, n)) = fs @ more
            \<and> (\<forall>f \<in> set more. laterFeature cb f)"
proof (induction rs arbitrary: fs n)
  case Nil
  show ?case by simp
next
  case (Cons r rs)
  define fs' where
    "fs' = (case el_members r of
              None \<Rightarrow> fs
            | Some ms \<Rightarrow>
                if length ms > 0 then
                  (let memberCoords = collectMemberCoords nodes ways ms []
                   in if length memberCoords > 0 then
                        (let feat = \<lparr>geometry = MultiLineString memberCoords,
                                     properties = cleanProperties (el_tags r)\<rparr>;
                             clippedFeature = clipFeatureToBoundary cb feat
                         in case clippedFeature of
                              None \<Rightarrow> fs
                            | Some f \<Rightarrow> if keepClipped clippedFeature then fs @ [f] else fs)
                      else fs)
                else fs)"
  have step: "processRelations cb nodes ways (r # rs) (fs, n) = processRelations cb nodes ways rs (fs', n + 1)"
    by (simp add: fs'_def)
  have fs': "fs' = fs \<or> (\<exists>f. fs' = fs @ [f] \<and> laterFeature cb f)"
    unfolding fs'_def
    by (auto simp: Let_def dest: clip_multilinestring split: option.splits)
  obtain more where more: "fst (processRelations cb nodes ways rs (fs', n + 1)) = fs' @ more"
    "\<forall>f \<in> set more. laterFeature cb f"
    using Cons.IH [of fs' "n + 1"] by blast
  from fs' show ?case
  proof
    assume "fs' = fs"
    with more show ?thesis unfolding step by blast
  next
    assume "\<exists>f. fs' = fs @ [f] \<and> laterFeature cb f"
    then obtain f where f: "fs' = fs @ [f]" "laterFeature cb f" by blast
    have "fst (processRelations cb nodes ways rs (fs', n + 1)) = fs @ (f # more)"
      using more(1) f(1) by simp
    moreover have "\<forall>x \<in> set (f # more). laterFeature cb x"
      using more(2) f(2) by simp
    ultimately show ?thesis unfolding step by blast
  qed
qed

lemma osmToGeoJSON_run:
  assumes "elements osm = Some els" and "els \<noteq> []"
  obtains nodes ways relations fs1 n1 ev1 fs2 n2 ev2 fs3 n3 where
    "partitionElements els ([], [], []) = (nodes, ways, relations)"
    "processNodes cb p (length els) els ([], 0, if p then [startEvent] else []) = (fs1, n1, ev1)"
    "processWays cb p nodes (length ways) ways (fs1, n1, ev1) = (fs2, n2, ev2)"
    "processRelations cb nodes ways relations (fs2, n2) = (fs3, n3)"
    "osmToGeoJSON cb osm p
       = (emptyGeoJSON\<lparr>features := fs3\<rparr>, if p then ev2 @ [completeEvent] else ev2)"
proof -
  obtain nodes ways relations where
    a: "partitionElements els ([], [], []) = (nodes, ways, relations)"
    by (cases "partitionElements els ([], [], [])") auto
  obtain fs1 n1 ev1 where
    b: "processNodes cb p (length els) els ([], 0, if p then [startEvent] else []) = (fs1, n1, ev1)"
    by (cases "processNodes cb p (length els) els ([], 0, if p then [startEvent] else [])") auto
  obtain fs2 n2 ev2 where
    c: "processWays cb p nodes (length ways) ways (fs1, n1, ev1) = (fs2, n2, ev2)"
    by (cases "processWays cb p nodes (length ways) ways (fs1, n1, ev1)") auto
  obtain fs3 n3 where
    d: "processRelations cb nodes ways relations (fs2, n2) = (fs3, n3)"
    by (cases "processRelations cb nodes ways relations (fs2, n2)") auto
  have "osmToGeoJSON cb osm p
       = (emptyGeoJSON\<lparr>features := fs3\<rparr>, if p then ev2 @ [completeEvent] else ev2)"
    using assms by (simp add: osmToGeoJSON_def a b c d)
  with a b c d that show ?thesis by blast
qed

lemma osmToGeoJSON_no_elements:
  "elements osm = None \<or> elements osm = Some [] \<Longrightarrow> osmToGeoJSON cb osm p = (emptyGeoJSON, [])"
  by (auto simp: osmToGeoJSON_def)

text \<open>
  The shape of the output: the points of the node pass, in input order, followed by the
  features of the way pass and of the relation pass, none of which is a Point.
\<close>

lemma osmToGeoJSON_features:
  assumes "elements osm = Some els" and "els \<noteq> []"
  shows "\<exists>later. features (fst (osmToGeoJSON cb osm p))
                    = map pointOf (filter (nodeEmitted cb) els) @ later
                 \<and> (\<forall>f \<in> set later. laterFeature cb f)"
proof -
  from assms obtain nodes ways relations fs1 n1 ev1 fs2 n2 ev2 fs3 n3 where
    b: "processNodes cb p (length els) els ([], 0, if p then [startEvent] else []) = (fs1, n1, ev1)"
    and c: "processWays cb p nodes (length ways) ways (fs1, n1, ev1) = (fs2, n2, ev2)"
    and d: "processRelations cb nodes ways relations (fs2, n2) = (fs3, n3)"
    and r: "osmToGeoJSON cb osm p
       = (emptyGeoJSON\<lparr>features := fs3\<rparr>, if p then ev2 @ [completeEvent] else ev2)"
    by (rule osmToGeoJSON_run [where cb = cb and p = p])
  have fs1: "fs1 = map pointOf (filter (nodeEmitted cb) els)"
    using processNodes_features [of cb p "length els" els "[]" 0 "if p then [startEvent] else []"]
    by (simp add: b)
  obtain m2 where m2: "fs2 = fs1 @ m2" "\<forall>f \<in> set m2. laterFeature cb f"
    using processWays_later [of cb p nodes "length ways" ways fs1 n1 ev1] by (auto simp: c)
  obtain m3 where m3: "fs3 = fs2 @ m3" "\<forall>f \<in> set m3. laterFeature cb f"
    using processRelations_later [of cb nodes ways relations fs2 n2] by (auto simp: d)
  have "features (fst (osmToGeoJSON cb osm p))
          = map pointOf (filter (nodeEmitted cb) els) @ (m2 @ m3)"
    by (simp add: r fs1 m2(1) m3(1))
  moreover have "\<forall>f \<in> set (m2 @ m3). laterFeature cb f"
    using m2(2) m3(2) by auto
  ultimately show ?thesis by blast
qed

lemma osmToGeoJSON_lines:
  "\<forall>f \<in> set (features (fst (osmToGeoJSON cb osm p))). lineOK cb f"
proof (cases "elements osm = None \<or> elements osm = Some []")
  case True
  then show ?thesis
    by (simp add: osmToGeoJSON_no_elements emptyGeoJSON_def)
next
  case False
  then obtain els where els: "elements osm = Some els" "els \<noteq> []" by auto
  obtain later where later:
    "features (fst (osmToGeoJSON cb osm p)) = map pointOf (filter (nodeEmitted cb) els) @ later"
    "\<forall>f \<in> set later. laterFeature cb f"
    using osmToGeoJSON_features [OF els, of cb p] by blast
  show ?thesis
    unfolding later(1) using later(2)
    by (auto simp: lineOK_def pointOf_def laterFeature_def)
qed

text \<open>
  The clip path keeps the bound on lines: with a clip boundary set, every LineString of
  the output has at least 2 points, since \<^verbatim>\<open>clipFeatureToBoundary\<close> returns \<^verbatim>\<open>null\<close> for a
  line of fewer points.
\<close>

lemma osmToGeoJSON_clipped_lines:
  assumes "cb \<noteq> None"
  shows "\<forall>f \<in> set (features (fst (osmToGeoJSON cb osm p))).
           \<forall>cs. geometry f = LineString cs \<longrightarrow> 2 \<le> length cs"
  using osmToGeoJSON_lines [of cb osm p] assms
  by (auto simp: lineOK_def)

text \<open>
  C7, amended. For every non-empty input element list, when a progress sink is
  supplied the first event it receives is the start event and the last event it
  receives is the \<open>complete\<close> event with progress 100. (For an empty or absent element
  list the converter returns before the first call, and the sink receives nothing.)
\<close>

theorem osmToGeoJSON_progress:
  assumes "elements osm = Some els" and "els \<noteq> []"
  shows "hd (snd (osmToGeoJSON cb osm True)) = startEvent
         \<and> last (snd (osmToGeoJSON cb osm True)) = completeEvent
         \<and> 2 \<le> length (snd (osmToGeoJSON cb osm True))
         \<and> stage (last (snd (osmToGeoJSON cb osm True))) = ''complete''
         \<and> progress (last (snd (osmToGeoJSON cb osm True))) = 100"
proof -
  from assms obtain nodes ways relations fs1 n1 ev1 fs2 n2 ev2 fs3 n3 where
    b: "processNodes cb True (length els) els ([], 0, if True then [startEvent] else []) = (fs1, n1, ev1)"
    and c: "processWays cb True nodes (length ways) ways (fs1, n1, ev1) = (fs2, n2, ev2)"
    and r: "osmToGeoJSON cb osm True
       = (emptyGeoJSON\<lparr>features := fs3\<rparr>, if True then ev2 @ [completeEvent] else ev2)"
    by (rule osmToGeoJSON_run [where cb = cb and p = True])
  obtain m1 where m1: "ev1 = [startEvent] @ m1"
    using processNodes_events [of cb True "length els" els "[]" 0 "[startEvent]"] b by auto
  obtain m2 where m2: "ev2 = ev1 @ m2"
    using processWays_events [of cb True nodes "length ways" ways fs1 n1 ev1] c by auto
  have "snd (osmToGeoJSON cb osm True) = startEvent # (m1 @ m2) @ [completeEvent]"
    by (simp add: r m1 m2)
  then show ?thesis
    by (simp add: completeEvent_def)
qed


lemmas eval_defs =
  osmToGeoJSON_def emptyGeoJSON_def Let_def isPointInBoundary_def cleanProperties_def
  skipFields_def resolveCoords_def List.map_filter_def isAreaFeature_def clipFeatureToBoundary_def
  keepClipped_def clipLineString_def

lemma upt_1: "[0..<1] = [0]"
  by (simp add: upt_rec)

lemma single_point_clipped:
  "clipLineString (setClipBoundary (Some unitTen)) [(1, 1)] = [(1, 1)]"
  by (simp add: clipLineString_kept upt_1 keptAt_def insideBounds_def unitTen_def)

text \<open>
  C4 at a way over one present and one missing node: with no clip boundary the
  converter emits it as a LineString of a single point, a degenerate line. The same
  input under a clip boundary that encloses the node yields no feature: there the test
  \<^verbatim>\<open>coordinates.length < 2\<close> of \<^verbatim>\<open>clipFeatureToBoundary\<close> drops the line, and the
  path without a boundary has no such test.
\<close>

theorem osmToGeoJSON_single_point_line:
  "features (fst (osmToGeoJSON None \<lparr>elements = Some [plainNode, danglingWay]\<rparr> False))
     = [\<lparr>geometry = LineString [(1, 1)], properties = [(''highway'', JStr ''residential'')]\<rparr>]
   \<and> features (fst (osmToGeoJSON (setClipBoundary (Some unitTen))
                      \<lparr>elements = Some [plainNode, danglingWay]\<rparr> False)) = []"
proof -
  have a: "features (fst (osmToGeoJSON None \<lparr>elements = Some [plainNode, danglingWay]\<rparr> False))
     = [\<lparr>geometry = LineString [(1, 1)], properties = [(''highway'', JStr ''residential'')]\<rparr>]"
    by (simp add: eval_defs plainNode_def danglingWay_def)
  have sb: "setClipBoundary (Some unitTen) \<noteq> None"
    by (simp add: setClipBoundary_def)
  have b: "features (fst (osmToGeoJSON (setClipBoundary (Some unitTen))
                      \<lparr>elements = Some [plainNode, danglingWay]\<rparr> False)) = []"
    using single_point_clipped sb
    by (simp add: osmToGeoJSON_def emptyGeoJSON_def Let_def cleanProperties_def
        skipFields_def resolveCoords_def List.map_filter_def isAreaFeature_def
        clipFeatureToBoundary_def keepClipped_def plainNode_def danglingWay_def)
  from a b show ?thesis by simp
qed

text \<open>
  C7, as stated, fails: on the empty element list a supplied sink receives no event at
  all, neither the start nor the \<open>complete\<close> event.
\<close>

theorem osmToGeoJSON_no_events_counterexample:
  "snd (osmToGeoJSON None \<lparr>elements = Some []\<rparr> True) = []"
  by (simp add: osmToGeoJSON_def)

text \<open>
  The Point features of the output are exactly the points of the nodes that pass the
  test of the node pass, in input order: a node without tags gives none, and neither
  does a node whose latitude or longitude is the number 0.
\<close>

lemma osmToGeoJSON_point_features:
  assumes "elements osm = Some els" and "els \<noteq> []"
  shows "filter (\<lambda>f. geometry_type (geometry f) = ''Point'') (features (fst (osmToGeoJSON cb osm p)))
           = map pointOf (filter (nodeEmitted cb) els)"
proof -
  obtain later where later:
    "features (fst (osmToGeoJSON cb osm p)) = map pointOf (filter (nodeEmitted cb) els) @ later"
    "\<forall>f \<in> set later. laterFeature cb f"
    using osmToGeoJSON_features [OF assms, of cb p] by blast
  have "filter (\<lambda>f. geometry_type (geometry f) = ''Point'') later = []"
    using later(2) by (auto simp: filter_empty_conv laterFeature_def)
  moreover have "filter (\<lambda>f. geometry_type (geometry f) = ''Point'')
                   (map pointOf (filter (nodeEmitted cb) els))
                 = map pointOf (filter (nodeEmitted cb) els)"
    by (simp add: filter_id_conv pointOf_def)
  ultimately show ?thesis
    by (simp add: later(1))
qed

text \<open>
  C2 at a node on the equator: the node has both coordinates (latitude 0, longitude 10)
  and a tag, no clip boundary is set, and the output holds no feature; the same node
  moved to latitude 1 yields its Point feature. The test \<^verbatim>\<open>el.lat && el.lon\<close> takes the
  number 0 for a missing coordinate.
\<close>

theorem osmToGeoJSON_equator_node:
  "features (fst (osmToGeoJSON None \<lparr>elements = Some [equatorNode]\<rparr> False)) = []
   \<and> features (fst (osmToGeoJSON None \<lparr>elements = Some [equatorNode\<lparr>el_lat := 1\<rparr>]\<rparr> False))
       = [\<lparr>geometry = Point (10, 1), properties = [(''name'', JStr ''Buoy'')]\<rparr>]"
  by (simp add: eval_defs equatorNode_def)

theorem osmToGeoJSON_progress_witness:
  "hd (snd (osmToGeoJSON None \<lparr>elements = Some [plainNode, danglingWay]\<rparr> True)) = startEvent
   \<and> last (snd (osmToGeoJSON None \<lparr>elements = Some [plainNode, danglingWay]\<rparr> True)) = completeEvent
   \<and> progress (last (snd (osmToGeoJSON None \<lparr>elements = Some [plainNode, danglingWay]\<rparr> True))) = 100"
proof -
  have a: "elements \<lparr>elements = Some [plainNode, danglingWay]\<rparr> = Some [plainNode, danglingWay]"
    by simp
  have b: "[plainNode, danglingWay] \<noteq> []"
    by simp
  from osmToGeoJSON_progress [OF a b, of None] show ?thesis
    by blast
qed

end
